theory Spec2Isabelle
  imports Main "HOL-Library.Word"
begin

section \<open>The order message script \<^verbatim>\<open>ouchBinary.py\<close>\<close>

text \<open>
  The script builds one 32-byte order message out of six module-level values and parses
  it again. It has no functions: lines 4 to 12 are the building step, lines 17 to 35 the
  parsing step. Both are modelled here as functions of the values the script binds, so
  that each statement of the script is one definition below.
\<close>

subsection \<open>Data\<close>

text \<open>
  A Python \<^verbatim>\<open>bytes\<close> value is a list of 8-bit words; a Python \<^verbatim>\<open>str\<close> is a list of
  Unicode code points, which do not fit a \<^typ>\<open>char\<close>.
\<close>

type_synonym byte = "8 word"
type_synonym bytes = "byte list"
type_synonym str = "nat list"

text \<open>
  The exceptions the script can raise: \<^verbatim>\<open>struct.error\<close> from \<^verbatim>\<open>struct.pack\<close>
  (``'I' format requires 0 <= number <= 4294967295''), \<^verbatim>\<open>struct.error\<close> from
  \<^verbatim>\<open>struct.unpack\<close> (``unpack requires a buffer of 32 bytes''), and
  \<^verbatim>\<open>UnicodeDecodeError\<close> from \<^verbatim>\<open>bytes.decode\<close>. \<^verbatim>\<open>TypeError\<close> is what the \<^verbatim>\<open>+\<close>
  of line 12 raises when its operands are a \<^verbatim>\<open>str\<close> and a \<^verbatim>\<open>bytes\<close> value.
\<close>

datatype error = StructErrorRange | StructErrorSize | UnicodeDecodeError | TypeError

text \<open>
  The six values. The script binds the same names twice: to \<^verbatim>\<open>bytes\<close> and integers
  before line 12, to \<^verbatim>\<open>str\<close> and integers after line 17; the text fields are a type
  parameter.
\<close>

record 'a order_message =
  message_type :: 'a
  order_token :: 'a
  buy_sell :: 'a
  shares :: int
  stock_symbol :: 'a
  price :: int

text \<open>ASCII literals, as \<^verbatim>\<open>b'...'\<close> and as \<^verbatim>\<open>'...'\<close>.\<close>

definition ascii_bytes :: "string \<Rightarrow> bytes" where
  "ascii_bytes s = map of_char s"

definition ascii_str :: "string \<Rightarrow> str" where
  "ascii_str s = map of_char s"

subsection \<open>Building the message (lines 4 to 12)\<close>

text \<open>\<^verbatim>\<open>struct.pack(">I", n)\<close>: four bytes, most significant first, or \<^verbatim>\<open>struct.error\<close>.\<close>

definition big_endian4 :: "int \<Rightarrow> bytes" where
  "big_endian4 n =
     [word_of_int (n div 16777216), word_of_int (n div 65536), word_of_int (n div 256),
      word_of_int n]"

definition pack_I :: "int \<Rightarrow> error + bytes" where
  "pack_I n =
     (if 0 \<le> n \<and> n \<le> 4294967295 then Inr (big_endian4 n) else Inl StructErrorRange)"

text \<open>
  Line 12: \<^verbatim>\<open>message_type + order_token + buy_sell + shares + stock_symbol + price\<close>,
  where \<^verbatim>\<open>shares\<close> (line 7) and \<^verbatim>\<open>price\<close> (line 9) have been packed before. The text
  fields are concatenated as they are given.
\<close>

definition binary_message :: "bytes order_message \<Rightarrow> error + bytes" where
  "binary_message m =
     (case pack_I (shares m) of
        Inl e \<Rightarrow> Inl e
      | Inr s \<Rightarrow>
          (case pack_I (price m) of
             Inl e \<Rightarrow> Inl e
           | Inr p \<Rightarrow>
               Inr (message_type m @ order_token m @ buy_sell m @ s @ stock_symbol m @ p)))"





subsection \<open>Parsing the message (lines 17 to 35)\<close>

text \<open>
  \<^verbatim>\<open>struct.unpack(">c14sc4s8s4s", b)\<close>: the format has size 1 + 14 + 1 + 4 + 8 + 4 = 32
  and no alignment; a buffer of any other length raises \<^verbatim>\<open>struct.error\<close>.
\<close>

definition unpacked_data :: "bytes \<Rightarrow> error + (bytes \<times> bytes \<times> bytes \<times> bytes \<times> bytes \<times> bytes)" where
  "unpacked_data b =
     (if length b \<noteq> 32 then Inl StructErrorSize
      else Inr (take 1 b, take 14 (drop 1 b), take 1 (drop 15 b),
                take 4 (drop 16 b), take 8 (drop 20 b), take 4 (drop 28 b)))"

text \<open>
  \<^verbatim>\<open>bytes.decode()\<close> with its defaults: UTF-8, strict. The well-formed sequences are
  those of the Unicode standard: no overlong forms, no surrogates, nothing above
  U+10FFFF.
\<close>

definition cont :: "byte \<Rightarrow> bool" where
  "cont b \<longleftrightarrow> 0x80 \<le> b \<and> b \<le> 0xBF"

definition second3 :: "byte \<Rightarrow> byte \<Rightarrow> bool" where
  "second3 b0 b1 \<longleftrightarrow>
     (if b0 = 0xE0 then 0xA0 \<le> b1 \<and> b1 \<le> 0xBF
      else if b0 = 0xED then 0x80 \<le> b1 \<and> b1 \<le> 0x9F
      else cont b1)"

definition second4 :: "byte \<Rightarrow> byte \<Rightarrow> bool" where
  "second4 b0 b1 \<longleftrightarrow>
     (if b0 = 0xF0 then 0x90 \<le> b1 \<and> b1 \<le> 0xBF
      else if b0 = 0xF4 then 0x80 \<le> b1 \<and> b1 \<le> 0x8F
      else cont b1)"

fun utf8 :: "bytes \<Rightarrow> str option" where
  "utf8 [] = Some []"
| "utf8 (b0 # bs) =
     (if b0 < 0x80 then map_option ((#) (unat b0)) (utf8 bs)
      else if 0xC2 \<le> b0 \<and> b0 \<le> 0xDF then
        (case bs of
           b1 # r \<Rightarrow>
             if cont b1
             then map_option ((#) ((unat b0 - 0xC0) * 64 + (unat b1 - 0x80))) (utf8 r)
             else None
         | _ \<Rightarrow> None)
      else if 0xE0 \<le> b0 \<and> b0 \<le> 0xEF then
        (case bs of
           b1 # b2 # r \<Rightarrow>
             if second3 b0 b1 \<and> cont b2
             then map_option
                    ((#) ((unat b0 - 0xE0) * 4096 + (unat b1 - 0x80) * 64 + (unat b2 - 0x80)))
                    (utf8 r)
             else None
         | _ \<Rightarrow> None)
      else if 0xF0 \<le> b0 \<and> b0 \<le> 0xF4 then
        (case bs of
           b1 # b2 # b3 # r \<Rightarrow>
             if second4 b0 b1 \<and> cont b2 \<and> cont b3
             then map_option
                    ((#) ((unat b0 - 0xF0) * 262144 + (unat b1 - 0x80) * 4096 +
                          (unat b2 - 0x80) * 64 + (unat b3 - 0x80)))
                    (utf8 r)
             else None
         | _ \<Rightarrow> None)
      else None)"

definition bytes_decode :: "bytes \<Rightarrow> error + str" where
  "bytes_decode b = (case utf8 b of None \<Rightarrow> Inl UnicodeDecodeError | Some s \<Rightarrow> Inr s)"

text \<open>
  \<^verbatim>\<open>str.strip()\<close> without argument removes the characters for which \<^verbatim>\<open>str.isspace\<close>
  holds from both ends. U+0000 is not one of them.
\<close>

definition isspace :: "nat \<Rightarrow> bool" where
  "isspace c \<longleftrightarrow>
     (0x09 \<le> c \<and> c \<le> 0x0D) \<or> (0x1C \<le> c \<and> c \<le> 0x20) \<or> c = 0x85 \<or> c = 0xA0 \<or>
     c = 0x1680 \<or> (0x2000 \<le> c \<and> c \<le> 0x200A) \<or> c = 0x2028 \<or> c = 0x2029 \<or>
     c = 0x202F \<or> c = 0x205F \<or> c = 0x3000"

definition strip :: "str \<Rightarrow> str" where
  "strip s = rev (dropWhile isspace (rev (dropWhile isspace s)))"

text \<open>\<^verbatim>\<open>int.from_bytes(b, "big")\<close>.\<close>

definition int_from_bytes :: "bytes \<Rightarrow> int" where
  "int_from_bytes b = foldl (\<lambda>acc x. acc * 256 + uint x) 0 b"

text \<open>Lines 20 to 35, in the order of the script; the \<^verbatim>\<open>print\<close> calls are left out.\<close>

definition readable :: "bytes \<times> bytes \<times> bytes \<times> bytes \<times> bytes \<times> bytes \<Rightarrow> error + str order_message" where
  "readable u =
     (case u of (u0, u1, u2, u3, u4, u5) \<Rightarrow>
        (case bytes_decode u0 of
           Inl e \<Rightarrow> Inl e
         | Inr mt \<Rightarrow>
             (case bytes_decode u1 of
                Inl e \<Rightarrow> Inl e
              | Inr ot \<Rightarrow>
                  (case bytes_decode u2 of
                     Inl e \<Rightarrow> Inl e
                   | Inr bs \<Rightarrow>
                       (case bytes_decode u4 of
                          Inl e \<Rightarrow> Inl e
                        | Inr sy \<Rightarrow>
                            Inr \<lparr>message_type = mt, order_token = strip ot, buy_sell = bs,
                                 shares = int_from_bytes u3, stock_symbol = strip sy,
                                 price = int_from_bytes u5\<rparr>)))))"

definition decode_message :: "bytes \<Rightarrow> error + str order_message" where
  "decode_message b = (case unpacked_data b of Inl e \<Rightarrow> Inl e | Inr u \<Rightarrow> readable u)"

subsection \<open>Printing the price (line 36)\<close>

text \<open>
  \<^verbatim>\<open>f"{price / 100:.2f}"\<close> divides in floating point and renders two decimals. For an
  integer of magnitude below \<open>2 ^ 53\<close> (line 35 gives one below \<open>2 ^ 32\<close>) the double
  nearest to \<open>price / 100\<close> is closer to it than half a hundredth, so the rendering is the
  exact quotient: the integer part, a point, and the two digits of the remainder.
\<close>

fun dec :: "nat \<Rightarrow> str" where
  "dec n = (if n < 10 then [48 + n] else dec (n div 10) @ [48 + n mod 10])"

declare dec.simps [simp del]

definition format_price :: "int \<Rightarrow> str" where
  "format_price p =
     (let a = nat \<bar>p\<bar> in
      (if p < 0 then [45] else []) @ dec (a div 100) @ [46, 48 + a mod 100 div 10, 48 + a mod 10])"

subsection \<open>The values of the script\<close>

definition script_values :: "bytes order_message" where
  "script_values =
     \<lparr>message_type = ascii_bytes ''O'', order_token = ascii_bytes ''ABC12345678901'',
      buy_sell = ascii_bytes ''B'', shares = 100, stock_symbol = ascii_bytes ''AAPL    '',
      price = 15000\<rparr>"

definition script_wire :: bytes where
  "script_wire =
     [0x4F] @ ascii_bytes ''ABC12345678901'' @ [0x42] @ [0x00, 0x00, 0x00, 0x64] @
     ascii_bytes ''AAPL    '' @ [0x00, 0x00, 0x3A, 0x98]"

subsection \<open>Notions the properties are stated with\<close>

definition is_ascii :: "bytes \<Rightarrow> bool" where
  "is_ascii bs = list_all (\<lambda>b. b < 0x80) bs"

definition in_u32 :: "int \<Rightarrow> bool" where
  "in_u32 n \<longleftrightarrow> 0 \<le> n \<and> n \<le> 4294967295"

definition exact_widths :: "bytes order_message \<Rightarrow> bool" where
  "exact_widths m \<longleftrightarrow>
     length (message_type m) = 1 \<and> length (order_token m) = 14 \<and>
     length (buy_sell m) = 1 \<and> length (stock_symbol m) = 8"

definition ascii_fields :: "bytes order_message \<Rightarrow> bool" where
  "ascii_fields m \<longleftrightarrow>
     is_ascii (message_type m) \<and> is_ascii (order_token m) \<and>
     is_ascii (buy_sell m) \<and> is_ascii (stock_symbol m)"

text \<open>
  The encode constraints in the words of the specification: one ASCII character for each
  tag, at most 14 and at most 8 characters of ASCII text, both numbers unsigned 32-bit.
\<close>

definition spec_encode_constraints :: "bytes order_message \<Rightarrow> bool" where
  "spec_encode_constraints m \<longleftrightarrow>
     length (message_type m) = 1 \<and> length (buy_sell m) = 1 \<and>
     length (order_token m) \<le> 14 \<and> length (stock_symbol m) \<le> 8 \<and>
     ascii_fields m \<and> in_u32 (shares m) \<and> in_u32 (price m)"

text \<open>
  What line 12 needs for its result to be a message: the text fields already have their
  full width, as the literals of lines 5 and 8 have (``14 bytes'', ``8 bytes (padded)'').
\<close>

definition full_width :: "bytes order_message \<Rightarrow> bool" where
  "full_width m \<longleftrightarrow>
     exact_widths m \<and> ascii_fields m \<and> in_u32 (shares m) \<and> in_u32 (price m)"

text \<open>The text of ASCII fields, and the comparison after stripping the string fields.\<close>

definition as_text :: "bytes order_message \<Rightarrow> str order_message" where
  "as_text m =
     \<lparr>message_type = map unat (message_type m), order_token = map unat (order_token m),
      buy_sell = map unat (buy_sell m), shares = shares m,
      stock_symbol = map unat (stock_symbol m), price = price m\<rparr>"

definition strip_fields :: "str order_message \<Rightarrow> str order_message" where
  "strip_fields d =
     \<lparr>message_type = message_type d, order_token = strip (order_token d),
      buy_sell = buy_sell d, shares = shares d,
      stock_symbol = strip (stock_symbol d), price = price d\<rparr>"

text \<open>Removing trailing padding only, as \<^verbatim>\<open>str.rstrip()\<close> does.\<close>

definition rstrip :: "str \<Rightarrow> str" where
  "rstrip s = rev (dropWhile isspace (rev s))"

text \<open>Building, then parsing.\<close>

definition roundtrip :: "bytes order_message \<Rightarrow> error + str order_message" where
  "roundtrip m = (case binary_message m of Inl e \<Rightarrow> Inl e | Inr b \<Rightarrow> decode_message b)"

text \<open>
  The well-formed UTF-8 byte sequences, row by row as the Unicode standard tabulates them
  (Table 3-7): what \<^verbatim>\<open>bytes.decode()\<close> accepts, stated without reference to the
  decoder above.
\<close>

inductive well_formed_utf8 :: "bytes \<Rightarrow> bool" where
  wf_empty: "well_formed_utf8 []"
| wf_00_7F: "b0 \<le> 0x7F \<Longrightarrow> well_formed_utf8 r \<Longrightarrow> well_formed_utf8 (b0 # r)"
| wf_C2_DF: "0xC2 \<le> b0 \<Longrightarrow> b0 \<le> 0xDF \<Longrightarrow> 0x80 \<le> b1 \<Longrightarrow> b1 \<le> 0xBF \<Longrightarrow>
     well_formed_utf8 r \<Longrightarrow> well_formed_utf8 (b0 # b1 # r)"
| wf_E0: "0xA0 \<le> b1 \<Longrightarrow> b1 \<le> 0xBF \<Longrightarrow> 0x80 \<le> b2 \<Longrightarrow> b2 \<le> 0xBF \<Longrightarrow>
     well_formed_utf8 r \<Longrightarrow> well_formed_utf8 (0xE0 # b1 # b2 # r)"
| wf_E1_EC: "0xE1 \<le> b0 \<Longrightarrow> b0 \<le> 0xEC \<Longrightarrow> 0x80 \<le> b1 \<Longrightarrow> b1 \<le> 0xBF \<Longrightarrow>
     0x80 \<le> b2 \<Longrightarrow> b2 \<le> 0xBF \<Longrightarrow>
     well_formed_utf8 r \<Longrightarrow> well_formed_utf8 (b0 # b1 # b2 # r)"
| wf_ED: "0x80 \<le> b1 \<Longrightarrow> b1 \<le> 0x9F \<Longrightarrow> 0x80 \<le> b2 \<Longrightarrow> b2 \<le> 0xBF \<Longrightarrow>
     well_formed_utf8 r \<Longrightarrow> well_formed_utf8 (0xED # b1 # b2 # r)"
| wf_EE_EF: "0xEE \<le> b0 \<Longrightarrow> b0 \<le> 0xEF \<Longrightarrow> 0x80 \<le> b1 \<Longrightarrow> b1 \<le> 0xBF \<Longrightarrow>
     0x80 \<le> b2 \<Longrightarrow> b2 \<le> 0xBF \<Longrightarrow>
     well_formed_utf8 r \<Longrightarrow> well_formed_utf8 (b0 # b1 # b2 # r)"
| wf_F0: "0x90 \<le> b1 \<Longrightarrow> b1 \<le> 0xBF \<Longrightarrow> 0x80 \<le> b2 \<Longrightarrow> b2 \<le> 0xBF \<Longrightarrow>
     0x80 \<le> b3 \<Longrightarrow> b3 \<le> 0xBF \<Longrightarrow>
     well_formed_utf8 r \<Longrightarrow> well_formed_utf8 (0xF0 # b1 # b2 # b3 # r)"
| wf_F1_F3: "0xF1 \<le> b0 \<Longrightarrow> b0 \<le> 0xF3 \<Longrightarrow> 0x80 \<le> b1 \<Longrightarrow> b1 \<le> 0xBF \<Longrightarrow>
     0x80 \<le> b2 \<Longrightarrow> b2 \<le> 0xBF \<Longrightarrow> 0x80 \<le> b3 \<Longrightarrow> b3 \<le> 0xBF \<Longrightarrow>
     well_formed_utf8 r \<Longrightarrow> well_formed_utf8 (b0 # b1 # b2 # b3 # r)"
| wf_F4: "0x80 \<le> b1 \<Longrightarrow> b1 \<le> 0x8F \<Longrightarrow> 0x80 \<le> b2 \<Longrightarrow> b2 \<le> 0xBF \<Longrightarrow>
     0x80 \<le> b3 \<Longrightarrow> b3 \<le> 0xBF \<Longrightarrow>
     well_formed_utf8 r \<Longrightarrow> well_formed_utf8 (0xF4 # b1 # b2 # b3 # r)"

text \<open>The four text fields of a 32-byte input: all well formed, all ASCII.\<close>

definition text_well_formed :: "bytes \<Rightarrow> bool" where
  "text_well_formed b \<longleftrightarrow>
     well_formed_utf8 (take 1 b) \<and> well_formed_utf8 (take 14 (drop 1 b)) \<and>
     well_formed_utf8 (take 1 (drop 15 b)) \<and> well_formed_utf8 (take 8 (drop 20 b))"

definition text_ascii :: "bytes \<Rightarrow> bool" where
  "text_ascii b \<longleftrightarrow>
     is_ascii (take 1 b) \<and> is_ascii (take 14 (drop 1 b)) \<and>
     is_ascii (take 1 (drop 15 b)) \<and> is_ascii (take 8 (drop 20 b))"




subsection \<open>Particular messages\<close>

text \<open>The values of the script with one field replaced, and inputs of the parsing step.\<close>

definition unpadded_symbol :: "bytes order_message" where
  "unpadded_symbol = script_values\<lparr>stock_symbol := ascii_bytes ''AAPL''\<rparr>"

definition short_token :: "bytes order_message" where
  "short_token = script_values\<lparr>order_token := ascii_bytes ''ABC''\<rparr>"

definition long_token :: "bytes order_message" where
  "long_token = script_values\<lparr>order_token := ascii_bytes ''ABC123456789012''\<rparr>"

definition long_symbol :: "bytes order_message" where
  "long_symbol = script_values\<lparr>stock_symbol := ascii_bytes ''AAPL12345''\<rparr>"

definition blank_symbol :: "bytes order_message" where
  "blank_symbol = script_values\<lparr>stock_symbol := ascii_bytes ''        ''\<rparr>"

definition indented_token :: "bytes order_message" where
  "indented_token = script_values\<lparr>order_token := ascii_bytes '' ABC1234567890''\<rparr>"

definition script_parsed :: "str order_message" where
  "script_parsed =
     \<lparr>message_type = ascii_str ''O'', order_token = ascii_str ''ABC12345678901'',
      buy_sell = ascii_str ''B'', shares = 100, stock_symbol = ascii_str ''AAPL'',
      price = 15000\<rparr>"

definition accented_wire :: bytes where
  "accented_wire = script_wire[1 := 0xC3, 2 := 0xA9]"

definition bad_text_wire :: bytes where
  "bad_text_wire = script_wire[1 := 0xFF]"

definition nul_padded_wire :: bytes where
  "nul_padded_wire =
     [0x4F] @ ascii_bytes ''ABC12345678901'' @ [0x42] @ [0x00, 0x00, 0x00, 0x64] @
     ascii_bytes ''AAPL'' @ [0x00, 0x00, 0x00, 0x00] @ [0x00, 0x00, 0x3A, 0x98]"


section \<open>Properties\<close>

subsection \<open>Numbers, text and layout\<close>

lemma be32: "16777216 * ((n::int) div 16777216) + 65536 * (n div 65536 mod 256) +
        n div 256 mod 256 * 256 + n mod 256 = n"
proof -
  have a: "n div 65536 = n div 256 div 256" by (simp add: zdiv_zmult2_eq)
  have b: "n div 16777216 = n div 256 div 256 div 256" by (simp add: zdiv_zmult2_eq)
  define x where "x = n div 256"
  define y where "y = x div 256"
  define z where "z = y div 256"
  have 1: "n = 256 * x + n mod 256" unfolding x_def by simp
  have 2: "x = 256 * y + x mod 256" unfolding y_def by simp
  have 3: "y = 256 * z + y mod 256" unfolding z_def by simp
  have "16777216 * z + 65536 * (y mod 256) + x mod 256 * 256 + n mod 256 = n"
    using 1 2 3 by linarith
  then show ?thesis unfolding a b x_def y_def z_def .
qed

lemma length_big_endian4: "length (big_endian4 n) = 4"
  by (simp add: big_endian4_def)

lemma int_from_big_endian4:
  assumes "in_u32 n"
  shows "int_from_bytes (big_endian4 n) = n"
proof -
  have "0 \<le> n div 16777216" "n div 16777216 < 256"
    using assms unfolding in_u32_def by linarith+
  then have top: "n div 16777216 mod 256 = n div 16777216" by simp
  have "int_from_bytes (big_endian4 n) =
      16777216 * (n div 16777216 mod 256) + 65536 * (n div 65536 mod 256) +
      n div 256 mod 256 * 256 + n mod 256"
    by (simp add: big_endian4_def int_from_bytes_def uint_word_of_int)
  then show ?thesis by (simp only: top be32)
qed

lemma pack_I_in_range: "in_u32 n \<Longrightarrow> pack_I n = Inr (big_endian4 n)"
  by (simp add: in_u32_def pack_I_def)

lemma pack_I_out_of_range: "\<not> in_u32 n \<Longrightarrow> pack_I n = Inl StructErrorRange"
  by (auto simp add: in_u32_def pack_I_def)

lemma binary_message_in_range:
  "in_u32 (shares m) \<Longrightarrow> in_u32 (price m) \<Longrightarrow>
   binary_message m =
     Inr (message_type m @ order_token m @ buy_sell m @ big_endian4 (shares m) @
          stock_symbol m @ big_endian4 (price m))"
  by (simp add: binary_message_def pack_I_in_range)

lemma utf8_ascii: "is_ascii bs \<Longrightarrow> utf8 bs = Some (map unat bs)"
  unfolding is_ascii_def by (induction bs) simp_all

lemma bytes_decode_ascii: "is_ascii bs \<Longrightarrow> bytes_decode bs = Inr (map unat bs)"
  by (simp add: bytes_decode_def utf8_ascii)

lemma unpacked_fields:
  assumes "length a = 1" "length b = 14" "length c = 1" "length d = 4" "length e = 8" "length f = 4"
  shows "unpacked_data (a @ b @ c @ d @ e @ f) = Inr (a, b, c, d, e, f)"
  using assms by (simp add: unpacked_data_def)

lemma roundtrip_full_width:
  assumes "full_width m"
  shows "roundtrip m = Inr (strip_fields (as_text m))"
proof -
  have r: "in_u32 (shares m)" "in_u32 (price m)" using assms by (simp_all add: full_width_def)
  have l: "length (message_type m) = 1" "length (order_token m) = 14" "length (buy_sell m) = 1"
    "length (stock_symbol m) = 8" using assms by (simp_all add: full_width_def exact_widths_def)
  have a: "is_ascii (message_type m)" "is_ascii (order_token m)" "is_ascii (buy_sell m)"
    "is_ascii (stock_symbol m)" using assms by (simp_all add: full_width_def ascii_fields_def)
  have u: "unpacked_data (message_type m @ order_token m @ buy_sell m @ big_endian4 (shares m) @
          stock_symbol m @ big_endian4 (price m)) = Inr (message_type m, order_token m, buy_sell m,
          big_endian4 (shares m), stock_symbol m, big_endian4 (price m))"
    using l by (intro unpacked_fields) (simp_all add: length_big_endian4)
  show ?thesis
    by (simp add: roundtrip_def binary_message_in_range r decode_message_def u readable_def
        bytes_decode_ascii a int_from_big_endian4 strip_fields_def as_text_def)
qed

subsection \<open>Stripping\<close>

lemma dropWhile_self: "xs = [] \<or> \<not> P (hd xs) \<Longrightarrow> dropWhile P xs = xs"
  by (cases xs) auto

lemma strip_fixed:
  assumes "s = [] \<or> (\<not> isspace (hd s) \<and> \<not> isspace (last s))"
  shows "strip s = s"
proof -
  have a: "dropWhile isspace s = s" using assms by (intro dropWhile_self) blast
  have "rev s = [] \<or> \<not> isspace (hd (rev s))" using assms by (auto simp: hd_rev)
  then have b: "dropWhile isspace (rev s) = rev s" by (rule dropWhile_self)
  show ?thesis by (simp add: strip_def a b)
qed

lemma last_dropWhile: "dropWhile P xs \<noteq> [] \<Longrightarrow> last (dropWhile P xs) = last xs"
proof -
  assume a: "dropWhile P xs \<noteq> []"
  have "last (takeWhile P xs @ dropWhile P xs) = last (dropWhile P xs)"
    using a by (rule last_appendR)
  then show ?thesis by simp
qed

lemma strip_ends: "strip s = [] \<or> (\<not> isspace (hd (strip s)) \<and> \<not> isspace (last (strip s)))"
proof (cases "dropWhile isspace s = []")
  case True
  have "strip s = []" unfolding strip_def True by simp
  then show ?thesis by (rule disjI1)
next
  case False
  define t where "t = dropWhile isspace s"
  define u where "u = dropWhile isspace (rev t)"
  have tne: "t \<noteq> []" using False by (simp add: t_def)
  have ht: "\<not> isspace (hd t)" unfolding t_def using False by (rule hd_dropWhile)
  have "hd t \<in> set (rev t)" using tne by simp
  then have une: "u \<noteq> []" unfolding u_def using ht by (auto simp only: dropWhile_eq_Nil_conv)
  have hu: "\<not> isspace (hd u)" using une unfolding u_def by (rule hd_dropWhile)
  have "last u = last (rev t)" using une unfolding u_def by (rule last_dropWhile)
  then have lu: "\<not> isspace (last u)" using ht tne by (simp add: last_rev)
  have "strip s = rev u" by (simp add: strip_def u_def t_def)
  then show ?thesis using une hu lu by (simp add: hd_rev last_rev)
qed

lemma strip_idem: "strip (strip s) = strip s"
  using strip_ends [of s] by (rule strip_fixed)

lemma strip_keeps_end:
  assumes "s \<noteq> []" "\<not> isspace (last s)"
  shows "strip s = dropWhile isspace s"
proof -
  define t where "t = dropWhile isspace s"
  have "last s \<in> set s" using assms(1) by simp
  then have tne: "t \<noteq> []" unfolding t_def using assms(2) by (auto simp only: dropWhile_eq_Nil_conv)
  then have "last t = last s" unfolding t_def by (rule last_dropWhile)
  then have "rev t = [] \<or> \<not> isspace (hd (rev t))" using assms(2) tne by (simp add: hd_rev)
  then have "dropWhile isspace (rev t) = rev t" by (rule dropWhile_self)
  then show ?thesis by (simp add: strip_def t_def)
qed

lemma strip_keeps_last:
  assumes "s \<noteq> []" "\<not> isspace (last s)"
  shows "strip s \<noteq> [] \<and> last (strip s) = last s"
proof -
  have e: "strip s = dropWhile isspace s" using assms by (rule strip_keeps_end)
  have "last s \<in> set s" using assms(1) by simp
  then have ne: "dropWhile isspace s \<noteq> []" using assms(2) by (auto simp only: dropWhile_eq_Nil_conv)
  then show ?thesis using e last_dropWhile [OF ne] by simp
qed

lemma not_isspace_nul: "\<not> isspace 0"
  by (simp add: isspace_def)

subsection \<open>Parsing and building again\<close>

lemma decode_message_fields:
  assumes "decode_message b = Inr d"
  shows "\<exists>mt ot bs sy. length b = 32 \<and> bytes_decode (take 1 b) = Inr mt \<and>
     bytes_decode (take 14 (drop 1 b)) = Inr ot \<and> bytes_decode (take 1 (drop 15 b)) = Inr bs \<and>
     bytes_decode (take 8 (drop 20 b)) = Inr sy \<and>
     d = \<lparr>message_type = mt, order_token = strip ot, buy_sell = bs,
          shares = int_from_bytes (take 4 (drop 16 b)), stock_symbol = strip sy,
          price = int_from_bytes (take 4 (drop 28 b))\<rparr>"
  using assms
  by (auto simp add: decode_message_def unpacked_data_def readable_def
      split: if_splits sum.splits)

lemma rstrip_prefix: "s = rstrip s @ rev (takeWhile isspace (rev s))"
proof -
  have "rev s = takeWhile isspace (rev s) @ dropWhile isspace (rev s)" by simp
  then have "rev (rev s) = rev (takeWhile isspace (rev s) @ dropWhile isspace (rev s))"
    by (rule arg_cong)
  then show ?thesis by (simp only: rev_rev_ident rev_append rstrip_def)
qed

lemma strip_differs_from_rstrip:
  assumes "s \<noteq> []" "isspace (hd s)" "\<not> list_all isspace s"
  shows "strip s \<noteq> rstrip s"
proof
  assume eq: "strip s = rstrip s"
  obtain x where x: "x \<in> set (rev s)" "\<not> isspace x"
    using assms(3) by (auto simp add: list_all_iff)
  then have "dropWhile isspace (rev s) \<noteq> []" by (auto simp only: dropWhile_eq_Nil_conv)
  then have ne: "rstrip s \<noteq> []" by (simp add: rstrip_def)
  have "hd s = hd (rstrip s @ rev (takeWhile isspace (rev s)))"
    using rstrip_prefix [of s] by (rule arg_cong)
  then have "hd s = hd (rstrip s)" using ne by simp
  then have "isspace (hd (strip s))" using assms(2) eq by simp
  moreover have "strip s \<noteq> []" using ne eq by simp
  ultimately show False using strip_ends [of s] by blast
qed

subsection \<open>Well-formed text\<close>

lemmas byte_order = word_le_nat_alt word_less_nat_alt word_unat_eq_iff

lemma well_formed_decodes: "well_formed_utf8 b \<Longrightarrow> utf8 b \<noteq> None"
proof (induction rule: well_formed_utf8.induct)
  case wf_empty
  show ?case by simp
next
  case (wf_00_7F b0 r)
  then show ?case by (simp add: byte_order)
next
  case (wf_C2_DF b0 b1 r)
  then show ?case by (simp add: cont_def byte_order)
next
  case (wf_E0 b1 b2 r)
  then show ?case by (simp add: cont_def second3_def byte_order)
next
  case (wf_E1_EC b0 b1 b2 r)
  then show ?case by (simp add: cont_def second3_def byte_order)
next
  case (wf_ED b1 b2 r)
  then show ?case by (simp add: cont_def second3_def byte_order)
next
  case (wf_EE_EF b0 b1 b2 r)
  then show ?case by (simp add: cont_def second3_def byte_order)
next
  case (wf_F0 b1 b2 b3 r)
  then show ?case by (simp add: cont_def second4_def byte_order)
next
  case (wf_F1_F3 b0 b1 b2 b3 r)
  then show ?case by (simp add: cont_def second4_def byte_order)
next
  case (wf_F4 b1 b2 b3 r)
  then show ?case by (simp add: cont_def second4_def byte_order)
qed

lemma decodes_well_formed: "utf8 b \<noteq> None \<Longrightarrow> well_formed_utf8 b"
proof (induction b rule: utf8.induct)
  case 1
  show ?case by (rule wf_empty)
next
  case (2 b0 bs)
  show ?case
  proof (cases "b0 < 0x80")
    case True
    then have "utf8 bs \<noteq> None" using "2.prems" by auto
    then have "well_formed_utf8 bs" using "2.IH"(1) True by blast
    moreover have "b0 \<le> 0x7F" using True by (simp add: byte_order)
    ultimately show ?thesis by (rule wf_00_7F [rotated])
  next
    case a: False
    show ?thesis
    proof (cases "0xC2 \<le> b0 \<and> b0 \<le> 0xDF")
      case True
      then obtain b1 r where bs: "bs = b1 # r" and c: "cont b1" and u: "utf8 r \<noteq> None"
        using "2.prems" a by (auto split: list.splits if_splits)
      have "well_formed_utf8 r" using "2.IH"(2) a True bs c u by blast
      then show ?thesis unfolding bs using True c by (auto simp: cont_def intro: wf_C2_DF)
    next
      case b: False
      show ?thesis
      proof (cases "0xE0 \<le> b0 \<and> b0 \<le> 0xEF")
        case True
        then obtain b1 b2 r where bs: "bs = b1 # b2 # r" and c: "second3 b0 b1 \<and> cont b2"
          and u: "utf8 r \<noteq> None"
          using "2.prems" a b by (auto split: list.splits if_splits)
        have w: "well_formed_utf8 r" using "2.IH"(3) a b True bs c u by blast
        consider "b0 = 0xE0" | "b0 = 0xED" | "0xE1 \<le> b0 \<and> b0 \<le> 0xEC" | "0xEE \<le> b0 \<and> b0 \<le> 0xEF"
          using True by (simp add: byte_order) linarith
        then show ?thesis
        proof cases
          case 1
          then show ?thesis unfolding bs using c w
            by (auto simp: cont_def second3_def intro: wf_E0)
        next
          case 2
          then show ?thesis unfolding bs using c w
            by (auto simp: cont_def second3_def intro: wf_ED)
        next
          case 3
          then have "b0 \<noteq> 0xE0" "b0 \<noteq> 0xED" by (auto simp: byte_order)
          then show ?thesis unfolding bs using 3 c w
            by (auto simp: cont_def second3_def intro: wf_E1_EC)
        next
          case 4
          then have "b0 \<noteq> 0xE0" "b0 \<noteq> 0xED" by (auto simp: byte_order)
          then show ?thesis unfolding bs using 4 c w
            by (auto simp: cont_def second3_def intro: wf_EE_EF)
        qed
      next
        case c: False
        have f: "0xF0 \<le> b0 \<and> b0 \<le> 0xF4"
          using "2.prems" a b c by (auto split: if_splits)
        then obtain b1 b2 b3 r where bs: "bs = b1 # b2 # b3 # r"
          and d: "second4 b0 b1 \<and> cont b2 \<and> cont b3" and u: "utf8 r \<noteq> None"
          using "2.prems" a b c by (auto split: list.splits if_splits)
        have w: "well_formed_utf8 r" using "2.IH"(4) a b c f bs d u by blast
        consider "b0 = 0xF0" | "b0 = 0xF4" | "0xF1 \<le> b0 \<and> b0 \<le> 0xF3"
          using f by (simp add: byte_order) linarith
        then show ?thesis
        proof cases
          case 1
          then show ?thesis unfolding bs using d w
            by (auto simp: cont_def second4_def intro: wf_F0)
        next
          case 2
          then show ?thesis unfolding bs using d w
            by (auto simp: cont_def second4_def intro: wf_F4)
        next
          case 3
          then have "b0 \<noteq> 0xF0" "b0 \<noteq> 0xF4" by (auto simp: byte_order)
          then show ?thesis unfolding bs using 3 d w
            by (auto simp: cont_def second4_def intro: wf_F1_F3)
        qed
      qed
    qed
  qed
qed

lemma utf8_well_formed_iff: "utf8 b = None \<longleftrightarrow> \<not> well_formed_utf8 b"
  using well_formed_decodes [of b] decodes_well_formed [of b] by blast

lemma well_formed_utf8_code [code]: "well_formed_utf8 b \<longleftrightarrow> utf8 b \<noteq> None"
  by (simp add: utf8_well_formed_iff)

lemma single_byte_text: "length f = 1 \<Longrightarrow> utf8 f = None \<longleftrightarrow> \<not> is_ascii f"
  by (cases f) (auto simp add: is_ascii_def)

lemma decode_message_32:
  "length b = 32 \<Longrightarrow>
   decode_message b =
     readable (take 1 b, take 14 (drop 1 b), take 1 (drop 15 b), take 4 (drop 16 b),
               take 8 (drop 20 b), take 4 (drop 28 b))"
  by (simp add: decode_message_def unpacked_data_def)

lemma readable_fails_iff:
  "readable (u0, u1, u2, u3, u4, u5) = Inl UnicodeDecodeError \<longleftrightarrow>
   utf8 u0 = None \<or> utf8 u1 = None \<or> utf8 u2 = None \<or> utf8 u4 = None"
  by (auto simp add: readable_def bytes_decode_def split: option.splits)

lemma readable_succeeds_iff:
  "(\<exists>d. readable (u0, u1, u2, u3, u4, u5) = Inr d) \<longleftrightarrow>
   utf8 u0 \<noteq> None \<and> utf8 u1 \<noteq> None \<and> utf8 u2 \<noteq> None \<and> utf8 u4 \<noteq> None"
  by (auto simp add: readable_def bytes_decode_def split: option.splits)



subsection \<open>Evaluation on concrete messages\<close>

lemmas evaluation = script_values_def script_wire_def ascii_bytes_def ascii_str_def
  binary_message_def pack_I_def big_endian4_def decode_message_def unpacked_data_def
  readable_def bytes_decode_def strip_def isspace_def int_from_bytes_def
  spec_encode_constraints_def ascii_fields_def is_ascii_def in_u32_def roundtrip_def

section \<open>The claims\<close>

subsection \<open>C4: inputs of another length\<close>

text \<open>
  C4. Parsing a byte sequence whose length is not 32 fails at \<^verbatim>\<open>struct.unpack\<close> with
  the buffer-size \<^verbatim>\<open>struct.error\<close> (the specification's LengthMismatch), and so gives
  no message.
\<close>

theorem decode_rejects_other_lengths:
  "length b \<noteq> 32 \<Longrightarrow>
   decode_message b = Inl StructErrorSize \<and> (\<forall>d. decode_message b \<noteq> Inr d)"
  by (simp add: decode_message_def unpacked_data_def)

theorem decode_rejects_other_lengths_witness:
  "length (ascii_bytes ''OABC'') \<noteq> 32 \<and>
   decode_message (ascii_bytes ''OABC'') = Inl StructErrorSize"
  using decode_rejects_other_lengths [of "ascii_bytes ''OABC''"] by (simp add: ascii_bytes_def)

subsection \<open>C6: numbers outside the unsigned 32-bit range\<close>

text \<open>
  C6. When \<^verbatim>\<open>shares\<close> or \<^verbatim>\<open>price\<close> is negative or exceeds 4294967295, building the
  message fails at \<^verbatim>\<open>struct.pack\<close> with the range \<^verbatim>\<open>struct.error\<close> (the
  specification's ValueOutOfRange).
\<close>

theorem pack_rejects_out_of_range:
  assumes "shares m < 0 \<or> 4294967295 < shares m \<or> price m < 0 \<or> 4294967295 < price m"
  shows "binary_message m = Inl StructErrorRange"
proof (cases "in_u32 (shares m)")
  case True
  then have "\<not> in_u32 (price m)" using assms by (auto simp: in_u32_def)
  then show ?thesis
    using True by (simp add: binary_message_def pack_I_in_range pack_I_out_of_range)
next
  case False
  then show ?thesis by (simp add: binary_message_def pack_I_out_of_range)
qed

theorem pack_rejects_out_of_range_witness:
  "price (script_values\<lparr>price := 4294967296\<rparr>) > 4294967295 \<and>
   binary_message (script_values\<lparr>price := 4294967296\<rparr>) = Inl StructErrorRange \<and>
   shares (script_values\<lparr>shares := - 1\<rparr>) < 0 \<and>
   binary_message (script_values\<lparr>shares := - 1\<rparr>) = Inl StructErrorRange"
  using pack_rejects_out_of_range [of "script_values\<lparr>price := 4294967296\<rparr>"]
    pack_rejects_out_of_range [of "script_values\<lparr>shares := - 1\<rparr>"]
  by (simp add: script_values_def)

subsection \<open>C2: the scenario of the script\<close>

text \<open>
  C2, as stated, takes the stock symbol \<^verbatim>\<open>AAPL\<close> as the input of the building step.
  Line 12 concatenates its operands as they are, so with the four bytes \<^verbatim>\<open>AAPL\<close> for
  the symbol the result is not the 32-byte sequence of the claim.
\<close>

theorem scenario_unpadded_counterexample:
  "binary_message unpadded_symbol \<noteq> Inr script_wire"
  by (simp add: unpadded_symbol_def evaluation)

text \<open>
  C2, amended. With the stock symbol given as the eight bytes \<^verbatim>\<open>AAPL\<close> followed by four
  spaces, as line 8 writes it, and the other values of the claim, the building step gives
  exactly the 32-byte sequence of the claim; parsing that sequence recovers type \<^verbatim>\<open>O\<close>,
  token \<^verbatim>\<open>ABC12345678901\<close>, side \<^verbatim>\<open>B\<close>, 100 shares, symbol \<^verbatim>\<open>AAPL\<close> and price 15000,
  and the price prints as \<^verbatim>\<open>150.00\<close>.
\<close>

theorem script_scenario:
  "binary_message script_values = Inr script_wire \<and> length script_wire = 32 \<and>
   decode_message script_wire =
     Inr \<lparr>message_type = ascii_str ''O'', order_token = ascii_str ''ABC12345678901'',
          buy_sell = ascii_str ''B'', shares = 100, stock_symbol = ascii_str ''AAPL'',
          price = 15000\<rparr> \<and>
   format_price 15000 = ascii_str ''150.00''"
  by (simp add: evaluation format_price_def dec.simps)

subsection \<open>C1: building, then parsing\<close>

text \<open>
  C1, as stated, covers every message whose token has at most 14 and whose symbol has at
  most 8 characters. The script does not pad: a shorter field gives a shorter sequence,
  which the parsing step rejects.
\<close>

theorem roundtrip_unpadded_counterexample:
  "spec_encode_constraints unpadded_symbol \<and>
   roundtrip unpadded_symbol = Inl StructErrorSize"
  by (simp add: unpadded_symbol_def evaluation)

text \<open>
  C1, amended. For every message whose tags are one ASCII byte each, whose token is
  exactly 14 and whose symbol is exactly 8 ASCII bytes (padding included), and whose
  numbers are in 0..4294967295, parsing the built sequence succeeds and gives a message
  equal to the original once the string fields of both are stripped.
\<close>

theorem roundtrip_after_strip:
  assumes "full_width m"
  shows "\<exists>d. roundtrip m = Inr d \<and> strip_fields d = strip_fields (as_text m)"
proof -
  have "strip_fields (strip_fields (as_text m)) = strip_fields (as_text m)"
    by (simp add: strip_fields_def strip_idem)
  then show ?thesis using roundtrip_full_width [OF assms] by simp
qed

theorem roundtrip_after_strip_witness:
  "full_width script_values \<and>
   (\<exists>d. roundtrip script_values = Inr d \<and>
        strip_fields d = strip_fields (as_text script_values))"
proof -
  have h: "full_width script_values"
    by (simp add: full_width_def exact_widths_def evaluation)
  show ?thesis using h roundtrip_after_strip [OF h] by simp
qed

subsection \<open>C3: the length of the built sequence\<close>

text \<open>
  C3, as stated, promises 32 bytes for every token of at most 14 characters. A token of
  three bytes gives a sequence of 21.
\<close>

theorem short_token_length_counterexample:
  "spec_encode_constraints short_token \<and>
   binary_message short_token =
     Inr (ascii_bytes ''OABCB'' @ [0, 0, 0, 0x64] @ ascii_bytes ''AAPL    '' @
          [0, 0, 0x3A, 0x98]) \<and>
   length (ascii_bytes ''OABCB'' @ [0, 0, 0, 0x64] @ ascii_bytes ''AAPL    '' @
           [0, 0, 0x3A, 0x98]) = 21"
  by (simp add: short_token_def evaluation)

text \<open>
  C3, amended. For every message whose tags have one byte each, whose token has exactly
  14 and whose symbol has exactly 8 bytes, and whose numbers are in 0..4294967295, the
  built sequence has length 32 and holds the fields in table order at offsets 0, 1, 15,
  16, 20 and 28, the numbers as four big-endian bytes.
\<close>

theorem full_width_layout:
  assumes "exact_widths m" "in_u32 (shares m)" "in_u32 (price m)"
  shows "\<exists>w. binary_message m = Inr w \<and> length w = 32 \<and>
    take 1 w = message_type m \<and> take 14 (drop 1 w) = order_token m \<and>
    take 1 (drop 15 w) = buy_sell m \<and> take 4 (drop 16 w) = big_endian4 (shares m) \<and>
    take 8 (drop 20 w) = stock_symbol m \<and> take 4 (drop 28 w) = big_endian4 (price m)"
  using assms
  by (simp add: binary_message_in_range exact_widths_def length_big_endian4)

theorem full_width_layout_witness:
  "exact_widths script_values \<and> in_u32 (shares script_values) \<and>
   in_u32 (price script_values) \<and>
   (\<exists>w. binary_message script_values = Inr w \<and> length w = 32 \<and>
    take 1 w = message_type script_values \<and>
    take 14 (drop 1 w) = order_token script_values \<and>
    take 1 (drop 15 w) = buy_sell script_values \<and>
    take 4 (drop 16 w) = big_endian4 (shares script_values) \<and>
    take 8 (drop 20 w) = stock_symbol script_values \<and>
    take 4 (drop 28 w) = big_endian4 (price script_values))"
proof -
  have h: "exact_widths script_values" "in_u32 (shares script_values)"
    "in_u32 (price script_values)"
    by (simp_all add: exact_widths_def evaluation)
  show ?thesis using h full_width_layout [OF h] by simp
qed

subsection \<open>C5: fields longer than their width\<close>

text \<open>
  C5, as stated, has the building step fail on a token of 15 or a symbol of 9 characters.
  The script checks no width: both are concatenated like any other value, and the result
  is a sequence of 33 bytes.
\<close>

theorem long_fields_accepted_counterexample:
  "length (order_token long_token) = 15 \<and>
   binary_message long_token =
     Inr (ascii_bytes ''OABC123456789012B'' @ [0, 0, 0, 0x64] @ ascii_bytes ''AAPL    '' @
          [0, 0, 0x3A, 0x98]) \<and>
   length (stock_symbol long_symbol) = 9 \<and>
   binary_message long_symbol =
     Inr (ascii_bytes ''OABC12345678901B'' @ [0, 0, 0, 0x64] @ ascii_bytes ''AAPL12345'' @
          [0, 0, 0x3A, 0x98])"
  by (simp add: long_token_def long_symbol_def evaluation)

text \<open>
  C5, amended. The building step checks no field width: whenever both numbers are in
  0..4294967295 it succeeds, whatever the lengths of the text fields, and returns the plain
  concatenation of the six fields (the numbers as four big-endian bytes), which has the
  sum of the lengths of the text fields plus 8 bytes. A field that is too long is noticed only when the
  sequence is parsed: a sequence whose length is not 32 is rejected with the buffer-size
  \<^verbatim>\<open>struct.error\<close>.
\<close>

theorem no_width_check:
  assumes "in_u32 (shares m)" "in_u32 (price m)"
  shows "\<exists>w. w = message_type m @ order_token m @ buy_sell m @ big_endian4 (shares m) @
               stock_symbol m @ big_endian4 (price m) \<and>
     binary_message m = Inr w \<and>
     length w = length (message_type m) + length (order_token m) + length (buy_sell m) +
                length (stock_symbol m) + 8 \<and>
     (length w \<noteq> 32 \<longrightarrow> decode_message w = Inl StructErrorSize)"
  using assms
  by (simp add: binary_message_in_range length_big_endian4 decode_message_def
      unpacked_data_def)

theorem no_width_check_witness:
  "in_u32 (shares long_token) \<and> in_u32 (price long_token) \<and>
   binary_message long_token =
     Inr (ascii_bytes ''OABC123456789012B'' @ [0, 0, 0, 0x64] @ ascii_bytes ''AAPL    '' @
          [0, 0, 0x3A, 0x98]) \<and>
   decode_message
     (ascii_bytes ''OABC123456789012B'' @ [0, 0, 0, 0x64] @ ascii_bytes ''AAPL    '' @
      [0, 0, 0x3A, 0x98]) = Inl StructErrorSize"
proof -
  have h: "in_u32 (shares long_token)" "in_u32 (price long_token)"
    by (simp_all add: long_token_def evaluation)
  show ?thesis using h no_width_check [OF h] by (auto simp add: long_token_def evaluation)
qed

subsection \<open>C7: text that cannot be decoded\<close>

text \<open>
  C7, as stated, is about fields that should be ASCII text and an ASCII-decoding failure.
  Lines 20, 23, 26 and 32 call \<^verbatim>\<open>bytes.decode()\<close>, which decodes UTF-8: a token field
  that begins with the bytes C3 A9 is not ASCII, and parsing succeeds with U+00E9 as the
  first character.
\<close>

theorem non_ascii_accepted_counterexample:
  "length accented_wire = 32 \<and> \<not> is_ascii (take 14 (drop 1 accented_wire)) \<and>
   decode_message accented_wire =
     Inr \<lparr>message_type = ascii_str ''O'', order_token = 233 # ascii_str ''C12345678901'',
          buy_sell = ascii_str ''B'', shares = 100, stock_symbol = ascii_str ''AAPL'',
          price = 15000\<rparr>"
  by (simp add: accented_wire_def cont_def evaluation)

text \<open>
  C7, amended. On a 32-byte input, parsing fails with \<^verbatim>\<open>UnicodeDecodeError\<close> (the
  specification's InvalidEncoding) exactly when one of the four text fields (type, token,
  side, symbol) is not well-formed UTF-8, and succeeds on every other 32-byte input. In
  particular it succeeds when the four fields are ASCII, and it fails when the one-byte
  type or side field is not ASCII.
\<close>

theorem decode_fails_only_on_text:
  assumes "length b = 32"
  shows "(decode_message b = Inl UnicodeDecodeError \<longleftrightarrow> \<not> text_well_formed b) \<and>
         ((\<exists>d. decode_message b = Inr d) \<longleftrightarrow> text_well_formed b) \<and>
         (text_ascii b \<longrightarrow> (\<exists>d. decode_message b = Inr d)) \<and>
         (\<not> is_ascii (take 1 b) \<or> \<not> is_ascii (take 1 (drop 15 b))
            \<longrightarrow> decode_message b = Inl UnicodeDecodeError)"
proof -
  have f: "decode_message b = Inl UnicodeDecodeError \<longleftrightarrow> \<not> text_well_formed b"
    unfolding decode_message_32 [OF assms] readable_fails_iff text_well_formed_def
      utf8_well_formed_iff by blast
  have s: "(\<exists>d. decode_message b = Inr d) \<longleftrightarrow> text_well_formed b"
    unfolding decode_message_32 [OF assms] readable_succeeds_iff text_well_formed_def
    by (simp add: utf8_well_formed_iff)
  have a: "text_ascii b \<longrightarrow> (\<exists>d. decode_message b = Inr d)"
    unfolding decode_message_32 [OF assms] readable_succeeds_iff text_ascii_def
    by (simp add: utf8_ascii)
  have l: "length (take 1 b) = 1" "length (take 1 (drop 15 b)) = 1" using assms by simp_all
  have t: "\<not> is_ascii (take 1 b) \<or> \<not> is_ascii (take 1 (drop 15 b))
            \<longrightarrow> decode_message b = Inl UnicodeDecodeError"
    unfolding decode_message_32 [OF assms] readable_fails_iff
    using single_byte_text [OF l(1)] single_byte_text [OF l(2)] by blast
  show ?thesis using f s a t by blast
qed

theorem decode_fails_only_on_text_witness:
  "length bad_text_wire = 32 \<and> decode_message bad_text_wire = Inl UnicodeDecodeError \<and>
   \<not> text_well_formed bad_text_wire \<and>
   length script_wire = 32 \<and> text_ascii script_wire \<and> text_well_formed script_wire \<and>
   (\<exists>d. decode_message script_wire = Inr d)"
proof -
  have a: "length bad_text_wire = 32" by (simp add: bad_text_wire_def evaluation)
  have b: "decode_message bad_text_wire = Inl UnicodeDecodeError"
    by (simp add: bad_text_wire_def evaluation)
  have c: "length script_wire = 32" by (simp add: evaluation)
  have d: "text_ascii script_wire" by (simp add: text_ascii_def evaluation)
  show ?thesis using a b c d decode_fails_only_on_text [OF a] decode_fails_only_on_text [OF c] by blast
qed

subsection \<open>C8: what parsing strips\<close>

text \<open>
  C8, as stated, has trailing null bytes removed from the string fields.
  \<^verbatim>\<open>str.strip()\<close> removes whitespace only, and U+0000 is not whitespace: a symbol field
  \<^verbatim>\<open>AAPL\<close> followed by four null bytes is parsed to a string of eight characters.
\<close>

theorem nul_padding_kept_counterexample:
  "decode_message nul_padded_wire =
     Inr \<lparr>message_type = ascii_str ''O'', order_token = ascii_str ''ABC12345678901'',
          buy_sell = ascii_str ''B'', shares = 100,
          stock_symbol = ascii_str ''AAPL'' @ [0, 0, 0, 0], price = 15000\<rparr>"
  by (simp add: nul_padded_wire_def evaluation)

text \<open>
  C8, amended. For every successfully parsed input, \<^verbatim>\<open>order_token\<close> and
  \<^verbatim>\<open>stock_symbol\<close> are the decoded text of their fields with the whitespace at both
  ends removed, so neither ends with a space; a trailing null character is not removed;
  and a symbol field holding the 8 bytes \<^verbatim>\<open>AAPL\<close> plus four spaces yields \<^verbatim>\<open>AAPL\<close>.
\<close>

theorem decode_strips_whitespace:
  assumes "decode_message b = Inr d"
  shows "\<exists>ot sy.
     bytes_decode (take 14 (drop 1 b)) = Inr ot \<and> bytes_decode (take 8 (drop 20 b)) = Inr sy \<and>
     order_token d = strip ot \<and> stock_symbol d = strip sy \<and>
     (order_token d = [] \<or> \<not> isspace (last (order_token d))) \<and>
     (stock_symbol d = [] \<or> \<not> isspace (last (stock_symbol d))) \<and>
     (ot \<noteq> [] \<and> last ot = 0 \<longrightarrow> order_token d \<noteq> [] \<and> last (order_token d) = 0) \<and>
     (sy \<noteq> [] \<and> last sy = 0 \<longrightarrow> stock_symbol d \<noteq> [] \<and> last (stock_symbol d) = 0) \<and>
     (take 8 (drop 20 b) = ascii_bytes ''AAPL    '' \<longrightarrow> stock_symbol d = ascii_str ''AAPL'')"
proof -
  obtain mt ot bs sy where f:
    "bytes_decode (take 14 (drop 1 b)) = Inr ot" "bytes_decode (take 8 (drop 20 b)) = Inr sy"
    "d = \<lparr>message_type = mt, order_token = strip ot, buy_sell = bs,
          shares = int_from_bytes (take 4 (drop 16 b)), stock_symbol = strip sy,
          price = int_from_bytes (take 4 (drop 28 b))\<rparr>"
    using decode_message_fields [OF assms] by blast
  have o: "order_token d = strip ot" and s: "stock_symbol d = strip sy" using f(3) by simp_all
  have 1: "order_token d = [] \<or> \<not> isspace (last (order_token d))"
    unfolding o using strip_ends [of ot] by blast
  have 2: "stock_symbol d = [] \<or> \<not> isspace (last (stock_symbol d))"
    unfolding s using strip_ends [of sy] by blast
  have 3: "ot \<noteq> [] \<and> last ot = 0 \<longrightarrow> order_token d \<noteq> [] \<and> last (order_token d) = 0"
    unfolding o using strip_keeps_last [of ot] not_isspace_nul by auto
  have 4: "sy \<noteq> [] \<and> last sy = 0 \<longrightarrow> stock_symbol d \<noteq> [] \<and> last (stock_symbol d) = 0"
    unfolding s using strip_keeps_last [of sy] not_isspace_nul by auto
  have 5: "take 8 (drop 20 b) = ascii_bytes ''AAPL    '' \<longrightarrow> stock_symbol d = ascii_str ''AAPL''"
  proof
    assume a: "take 8 (drop 20 b) = ascii_bytes ''AAPL    ''"
    have "bytes_decode (ascii_bytes ''AAPL    '') = Inr (ascii_str ''AAPL    '')"
      by (simp add: evaluation)
    then have "sy = ascii_str ''AAPL    ''" using f(2) a by simp
    then show "stock_symbol d = ascii_str ''AAPL''" unfolding s by (simp add: evaluation)
  qed
  show ?thesis using f(1,2) o s 1 2 3 4 5 by blast
qed

theorem decode_strips_whitespace_witness:
  "decode_message script_wire = Inr script_parsed \<and>
   take 8 (drop 20 script_wire) = ascii_bytes ''AAPL    '' \<and>
   stock_symbol script_parsed = ascii_str ''AAPL''"
proof -
  have h: "decode_message script_wire = Inr script_parsed"
    by (simp add: script_parsed_def evaluation)
  have t: "take 8 (drop 20 script_wire) = ascii_bytes ''AAPL    ''" by (simp add: evaluation)
  show ?thesis using h t decode_strips_whitespace [OF h] by blast
qed


subsection \<open>C9: building from a parsed message\<close>




subsection \<open>C10: whitespace at the front\<close>

text \<open>
  C10, as stated, has the parsed string differ from the original, trailing padding
  removed, whenever the field begins with a space. A field of spaces only begins with a
  space, and both strings are empty.
\<close>

theorem blank_field_counterexample:
  "full_width blank_symbol \<and> hd (stock_symbol blank_symbol) = 0x20 \<and>
   roundtrip blank_symbol =
     Inr \<lparr>message_type = ascii_str ''O'', order_token = ascii_str ''ABC12345678901'',
          buy_sell = ascii_str ''B'', shares = 100, stock_symbol = [], price = 15000\<rparr> \<and>
   rstrip (map unat (stock_symbol blank_symbol)) = []"
  by (simp add: blank_symbol_def full_width_def exact_widths_def rstrip_def evaluation)

text \<open>
  C10, amended. Parsing a built full-width message strips the whitespace at both ends of
  \<^verbatim>\<open>order_token\<close> and \<^verbatim>\<open>stock_symbol\<close> (tabs and newlines included, null characters
  not), so the parsed strings neither begin nor end with whitespace; for a field that
  begins with a space and holds at least one character that is not whitespace, the parsed
  string differs from the original with only its trailing padding removed.
\<close>

theorem leading_space_lost:
  assumes "full_width m"
  shows "\<exists>d. roundtrip m = Inr d \<and>
     order_token d = strip (map unat (order_token m)) \<and>
     stock_symbol d = strip (map unat (stock_symbol m)) \<and>
     (order_token d = [] \<or> (\<not> isspace (hd (order_token d)) \<and> \<not> isspace (last (order_token d)))) \<and>
     (stock_symbol d = [] \<or> (\<not> isspace (hd (stock_symbol d)) \<and> \<not> isspace (last (stock_symbol d)))) \<and>
     (hd (order_token m) = 0x20 \<and> \<not> list_all isspace (map unat (order_token m))
        \<longrightarrow> order_token d \<noteq> rstrip (map unat (order_token m))) \<and>
     (hd (stock_symbol m) = 0x20 \<and> \<not> list_all isspace (map unat (stock_symbol m))
        \<longrightarrow> stock_symbol d \<noteq> rstrip (map unat (stock_symbol m))) \<and>
     strip [0x09, 0x0A, 0x20, 0x41, 0x00, 0x0D, 0x20, 0x0A] = [0x41, 0x00]"
proof -
  define d where "d = strip_fields (as_text m)"
  have l: "order_token m \<noteq> []" "stock_symbol m \<noteq> []"
    using assms by (auto simp add: full_width_def exact_widths_def)
  have r: "roundtrip m = Inr d" unfolding d_def by (rule roundtrip_full_width [OF assms])
  have o: "order_token d = strip (map unat (order_token m))"
    and s: "stock_symbol d = strip (map unat (stock_symbol m))"
    by (simp_all add: d_def strip_fields_def as_text_def)
  have 1: "order_token d = [] \<or>
      (\<not> isspace (hd (order_token d)) \<and> \<not> isspace (last (order_token d)))"
    unfolding o by (rule strip_ends)
  have 2: "stock_symbol d = [] \<or>
      (\<not> isspace (hd (stock_symbol d)) \<and> \<not> isspace (last (stock_symbol d)))"
    unfolding s by (rule strip_ends)
  have sp: "isspace (unat (0x20 :: byte))" by (simp add: isspace_def)
  have 3: "hd (order_token m) = 0x20 \<and> \<not> list_all isspace (map unat (order_token m))
        \<longrightarrow> order_token d \<noteq> rstrip (map unat (order_token m))"
  proof
    assume a: "hd (order_token m) = 0x20 \<and> \<not> list_all isspace (map unat (order_token m))"
    have "isspace (hd (map unat (order_token m)))" using l(1) a sp by (simp add: hd_map)
    then show "order_token d \<noteq> rstrip (map unat (order_token m))"
      unfolding o using l(1) a by (intro strip_differs_from_rstrip) simp_all
  qed
  have 4: "hd (stock_symbol m) = 0x20 \<and> \<not> list_all isspace (map unat (stock_symbol m))
        \<longrightarrow> stock_symbol d \<noteq> rstrip (map unat (stock_symbol m))"
  proof
    assume a: "hd (stock_symbol m) = 0x20 \<and> \<not> list_all isspace (map unat (stock_symbol m))"
    have "isspace (hd (map unat (stock_symbol m)))" using l(2) a sp by (simp add: hd_map)
    then show "stock_symbol d \<noteq> rstrip (map unat (stock_symbol m))"
      unfolding s using l(2) a by (intro strip_differs_from_rstrip) simp_all
  qed
  have 5: "strip [0x09, 0x0A, 0x20, 0x41, 0x00, 0x0D, 0x20, 0x0A] = [0x41, 0x00]"
    by (simp add: strip_def isspace_def)
  show ?thesis using r o s 1 2 3 4 5 by blast
qed

theorem leading_space_lost_witness:
  "full_width indented_token \<and> hd (order_token indented_token) = 0x20 \<and>
   \<not> list_all isspace (map unat (order_token indented_token)) \<and>
   roundtrip indented_token =
     Inr \<lparr>message_type = ascii_str ''O'', order_token = ascii_str ''ABC1234567890'',
          buy_sell = ascii_str ''B'', shares = 100, stock_symbol = ascii_str ''AAPL'',
          price = 15000\<rparr> \<and>
   rstrip (map unat (order_token indented_token)) = ascii_str '' ABC1234567890'' \<and>
   ascii_str ''ABC1234567890'' \<noteq> rstrip (map unat (order_token indented_token))"
proof -
  have h: "full_width indented_token"
    by (simp add: indented_token_def full_width_def exact_widths_def evaluation)
  have a: "hd (order_token indented_token) = 0x20"
    "\<not> list_all isspace (map unat (order_token indented_token))"
    by (simp_all add: indented_token_def evaluation)
  have r: "roundtrip indented_token =
     Inr \<lparr>message_type = ascii_str ''O'', order_token = ascii_str ''ABC1234567890'',
          buy_sell = ascii_str ''B'', shares = 100, stock_symbol = ascii_str ''AAPL'',
          price = 15000\<rparr>"
    by (simp add: indented_token_def evaluation)
  have s: "rstrip (map unat (order_token indented_token)) = ascii_str '' ABC1234567890''"
    by (simp add: indented_token_def rstrip_def evaluation)
  have "ascii_str ''ABC1234567890'' \<noteq> rstrip (map unat (order_token indented_token))"
    using leading_space_lost [OF h] a r by auto
  then show ?thesis using h a r s by blast
qed

end
